theory Spec2Isabelle
  imports Main
begin

section \<open>The note-vault tool server (src/ts/src/obsidian.ts)\<close>

text \<open>
  The server keeps one immutable value, the vault root \<open>obsidianVaultDir\<close>, and
  answers tool calls that read, write, delete and search notes below it. Strings are
  modelled as \<^typ>\<open>string\<close> (lists of 8-bit characters); a thrown JavaScript
  \<open>Error\<close> is the value \<open>Error msg\<close> on the left of a sum.
\<close>

datatype jsError = Error (message: string)

subsection \<open>String primitives of the host language\<close>

definition startsWith :: "string \<Rightarrow> string \<Rightarrow> bool" where
  "startsWith s p = (take (length p) s = p)"

definition endsWith :: "string \<Rightarrow> string \<Rightarrow> bool" where
  "endsWith s p = (length p \<le> length s \<and> drop (length s - length p) s = p)"

text \<open>\<open>Array.prototype.join\<close> on an array of strings.\<close>

fun joinWith :: "string \<Rightarrow> string list \<Rightarrow> string" where
  "joinWith sep [] = []"
| "joinWith sep [x] = x"
| "joinWith sep (x # y # ys) = x @ sep @ joinWith sep (y # ys)"

text \<open>\<open>s.split('/')\<close>: the pieces between the slashes, empty pieces included.\<close>

fun splitSlash :: "string \<Rightarrow> string list" where
  "splitSlash [] = [[]]"
| "splitSlash (c # cs) =
     (if c = CHR ''/'' then [] # splitSlash cs
      else (case splitSlash cs of [] \<Rightarrow> [[c]] | s # ss \<Rightarrow> (c # s) # ss))"

subsection \<open>The POSIX \<open>path\<close> module of the runtime\<close>

text \<open>
  \<open>path.isAbsolute\<close>, \<open>path.normalize\<close>, \<open>path.join\<close>, \<open>path.extname\<close>,
  \<open>path.dirname\<close> and \<open>path.relative\<close> belong to the runtime, not to the repository.
  They are modelled after the runtime's POSIX implementation. Its \<open>normalizeString\<close>
  scans the path once and keeps the result \<open>res\<close> as a string of segments separated by
  single slashes; here \<open>res\<close> is the list of those segments, last segment first.
  An empty segment and \<open>.\<close> are skipped; \<open>..\<close> removes the last segment of \<open>res\<close>
  unless \<open>res\<close> is empty or ends in \<open>..\<close>, in which case \<open>..\<close> is kept only when
  \<open>allowAboveRoot\<close> holds; every other segment is appended.
\<close>

definition isAbsolute :: "string \<Rightarrow> bool" where
  "isAbsolute p = (case p of [] \<Rightarrow> False | c # _ \<Rightarrow> c = CHR ''/'')"

definition normalizeStep :: "bool \<Rightarrow> string list \<Rightarrow> string \<Rightarrow> string list" where
  "normalizeStep allowAboveRoot res seg =
     (if seg = [] \<or> seg = ''.'' then res
      else if seg = ''..'' then
        (case res of
           [] \<Rightarrow> (if allowAboveRoot then [''..''] else [])
         | t # rest \<Rightarrow>
             (if t = ''..'' then (if allowAboveRoot then ''..'' # res else res)
              else rest))
      else seg # res)"

definition normalizeString :: "string \<Rightarrow> bool \<Rightarrow> string" where
  "normalizeString p allowAboveRoot =
     joinWith ''/'' (rev (foldl (normalizeStep allowAboveRoot) [] (splitSlash p)))"

definition normalize :: "string \<Rightarrow> string" where
  "normalize p =
     (if p = [] then ''.''
      else
        let isAbs = (hd p = CHR ''/'');
            trailingSeparator = (last p = CHR ''/'');
            r = normalizeString p (\<not> isAbs)
        in if r = [] then (if isAbs then ''/'' else if trailingSeparator then ''./'' else ''.'')
           else (let r' = (if trailingSeparator then r @ ''/'' else r)
                 in if isAbs then CHR ''/'' # r' else r'))"

definition join :: "string list \<Rightarrow> string" where
  "join args =
     (let parts = filter (\<lambda>a. a \<noteq> []) args
      in if parts = [] then ''.'' else normalize (joinWith ''/'' parts))"

text \<open>
  \<open>path.extname\<close>: trailing slashes are ignored, the last component is taken, and the
  extension runs from its last dot to its end; it is empty when the component has no
  dot, when the last dot is the component's first character, or when the component is
  \<open>..\<close>.
\<close>

definition stripTrailingSlashes :: "string \<Rightarrow> string" where
  "stripTrailingSlashes p = rev (dropWhile (\<lambda>c. c = CHR ''/'') (rev p))"

definition lastComponent :: "string \<Rightarrow> string" where
  "lastComponent p = rev (takeWhile (\<lambda>c. c \<noteq> CHR ''/'') (rev (stripTrailingSlashes p)))"

definition extname :: "string \<Rightarrow> string" where
  "extname p =
     (let comp = lastComponent p;
          ext = rev (takeWhile (\<lambda>c. c \<noteq> CHR ''.'') (rev comp));
          stem = take (length comp - length ext - 1) comp
      in if CHR ''.'' \<notin> set comp \<or> stem = [] \<or> comp = ''..'' then []
         else CHR ''.'' # ext)"

text \<open>
  \<open>path.dirname\<close>: trailing slashes and the last component are dropped, scanning from
  the end down to index 1; \<open>end\<close> is the index of the slash that precedes the last
  component.
\<close>

definition dirname :: "string \<Rightarrow> string" where
  "dirname p =
     (if p = [] then ''.''
      else
        let hasRoot = (hd p = CHR ''/'');
            scanned = dropWhile (\<lambda>c. c \<noteq> CHR ''/'')
                        (dropWhile (\<lambda>c. c = CHR ''/'') (rev (tl p)));
            end = length scanned
        in if scanned = [] then (if hasRoot then ''/'' else ''.'')
           else if hasRoot \<and> end = 1 then ''//''
           else take end p)"

text \<open>
  \<open>path.relative\<close> is only ever called here on two absolute paths, so \<open>path.resolve\<close>
  reduces to normalisation without the trailing slash. Both paths are compared segment
  by segment: one \<open>..\<close> for every segment of \<open>from\<close> beyond the common prefix,
  followed by the rest of \<open>to\<close>.
\<close>

definition resolveAbs :: "string \<Rightarrow> string" where
  "resolveAbs p = CHR ''/'' # normalizeString p False"

definition segments :: "string \<Rightarrow> string list" where
  "segments p = filter (\<lambda>s. s \<noteq> []) (splitSlash p)"

fun dropCommon :: "string list \<Rightarrow> string list \<Rightarrow> string list \<times> string list" where
  "dropCommon (x # xs) (y # ys) = (if x = y then dropCommon xs ys else (x # xs, y # ys))"
| "dropCommon xs ys = (xs, ys)"

definition relative :: "string \<Rightarrow> string \<Rightarrow> string" where
  "relative from to =
     (if from = to then []
      else
        let f = resolveAbs from; t = resolveAbs to
        in if f = t then []
           else (case dropCommon (segments f) (segments t) of
                   (fs, ts) \<Rightarrow> joinWith ''/'' (replicate (length fs) ''..'' @ ts)))"

subsection \<open>validatePath\<close>

text \<open>
  The vault root is a parameter: it is computed once at start-up by \<open>path.resolve\<close>
  and never changes.
\<close>

definition validatePath :: "string \<Rightarrow> string \<Rightarrow> jsError + string" where
  "validatePath obsidianVaultDir notePath =
     (let fullPath = (if isAbsolute notePath then normalize notePath
                      else join [obsidianVaultDir, notePath])
      in if \<not> startsWith fullPath obsidianVaultDir
         then Inl (Error (''Access denied - path outside Obsidian vault: '' @ fullPath))
         else
           let ext = extname fullPath;
               validPath = (if ext = ''.md'' then fullPath else fullPath @ ''.md'')
           in Inr validPath)"

subsection \<open>The file system\<close>

text \<open>
  The file system is the environment of the server. It is modelled as a finite tree:
  a regular file carries its content and whether it may be read and written, a
  directory carries whether it may be listed and its entries in the order
  \<open>readdir\<close> reports them, and \<open>OtherNode\<close> stands for every entry that is neither
  (\<open>isFile()\<close> and \<open>isDirectory()\<close> are both false). Every operation of
  \<open>fs/promises\<close> either fails with an error or returns; each call of
  \<open>readFile\<close>, \<open>writeFile\<close>, \<open>unlink\<close> and \<open>mkdir\<close> is recorded in \<open>oplog\<close>,
  oldest first.
\<close>

datatype fsnode =
    FileNode string bool bool
  | DirNode bool "(string \<times> fsnode) list"
  | OtherNode

datatype errno = ENOENT | ENOTDIR | EISDIR | EACCES | EEXIST

datatype fsOp =
    ReadFile string
  | WriteFile string string
  | Unlink string
  | Mkdir string

record fsState =
  tree :: fsnode
  oplog :: "fsOp list"

fun errnoText :: "errno \<Rightarrow> string" where
  "errnoText ENOENT = ''ENOENT: no such file or directory''"
| "errnoText ENOTDIR = ''ENOTDIR: not a directory''"
| "errnoText EISDIR = ''EISDIR: illegal operation on a directory''"
| "errnoText EACCES = ''EACCES: permission denied''"
| "errnoText EEXIST = ''EEXIST: file already exists''"

definition fsError :: "errno \<Rightarrow> string \<Rightarrow> string \<Rightarrow> jsError" where
  "fsError e syscall p = Error (errnoText e @ '', '' @ syscall @ '' '' @ [CHR 0x27] @ p @ [CHR 0x27])"

definition hasTrailingSlash :: "string \<Rightarrow> bool" where
  "hasTrailingSlash p = (p \<noteq> [] \<and> last p = CHR ''/'')"

fun setChild :: "string \<Rightarrow> fsnode \<Rightarrow> (string \<times> fsnode) list \<Rightarrow> (string \<times> fsnode) list" where
  "setChild k v [] = [(k, v)]"
| "setChild k v ((k', v') # cs) = (if k = k' then (k, v) # cs else (k', v') # setChild k v cs)"

fun lookupNode :: "string list \<Rightarrow> fsnode \<Rightarrow> fsnode option" where
  "lookupNode [] n = Some n"
| "lookupNode (s # ss) (DirNode l cs) =
     (case map_of cs s of None \<Rightarrow> None | Some c \<Rightarrow> lookupNode ss c)"
| "lookupNode (s # ss) _ = None"

fun writeAt :: "string list \<Rightarrow> string \<Rightarrow> fsnode \<Rightarrow> errno + fsnode" where
  "writeAt [] c n = Inl EISDIR"
| "writeAt [s] c (DirNode l cs) =
     (case map_of cs s of
        None \<Rightarrow> Inr (DirNode l (setChild s (FileNode c True True) cs))
      | Some (FileNode old r w) \<Rightarrow>
          (if w then Inr (DirNode l (setChild s (FileNode c r w) cs)) else Inl EACCES)
      | Some (DirNode l' cs') \<Rightarrow> Inl EISDIR
      | Some OtherNode \<Rightarrow> Inl EACCES)"
| "writeAt (s # ss) c (DirNode l cs) =
     (case map_of cs s of
        None \<Rightarrow> Inl ENOENT
      | Some ch \<Rightarrow>
          (case writeAt ss c ch of
             Inl e \<Rightarrow> Inl e
           | Inr ch' \<Rightarrow> Inr (DirNode l (setChild s ch' cs))))"
| "writeAt (s # ss) c n = Inl ENOTDIR"

fun mkdirAt :: "string list \<Rightarrow> fsnode \<Rightarrow> errno + fsnode" where
  "mkdirAt [] n = (case n of DirNode l cs \<Rightarrow> Inr n | _ \<Rightarrow> Inl EEXIST)"
| "mkdirAt (s # ss) (DirNode l cs) =
     (case map_of cs s of
        None \<Rightarrow>
          (case mkdirAt ss (DirNode True []) of
             Inl e \<Rightarrow> Inl e
           | Inr ch \<Rightarrow> Inr (DirNode l (setChild s ch cs)))
      | Some ch \<Rightarrow>
          (case mkdirAt ss ch of
             Inl e \<Rightarrow> Inl e
           | Inr ch' \<Rightarrow> Inr (DirNode l (setChild s ch' cs))))"
| "mkdirAt (s # ss) n = Inl ENOTDIR"

fun unlinkAt :: "string list \<Rightarrow> fsnode \<Rightarrow> errno + fsnode" where
  "unlinkAt [] n = Inl EISDIR"
| "unlinkAt [s] (DirNode l cs) =
     (case map_of cs s of
        None \<Rightarrow> Inl ENOENT
      | Some (DirNode l' cs') \<Rightarrow> Inl EISDIR
      | Some ch \<Rightarrow> Inr (DirNode l (filter (\<lambda>e. fst e \<noteq> s) cs)))"
| "unlinkAt (s # ss) (DirNode l cs) =
     (case map_of cs s of
        None \<Rightarrow> Inl ENOENT
      | Some ch \<Rightarrow>
          (case unlinkAt ss ch of
             Inl e \<Rightarrow> Inl e
           | Inr ch' \<Rightarrow> Inr (DirNode l (setChild s ch' cs))))"
| "unlinkAt (s # ss) n = Inl ENOTDIR"

text \<open>
  The four operations the handlers call. A path with a trailing slash names a
  directory, so reading, writing or unlinking through it fails whatever it points to.
\<close>

definition readFile :: "string \<Rightarrow> fsState \<Rightarrow> (jsError + string) \<times> fsState" where
  "readFile p st =
     (let st' = st\<lparr>oplog := oplog st @ [ReadFile p]\<rparr>
      in case lookupNode (segments p) (tree st) of
           None \<Rightarrow> (Inl (fsError ENOENT ''open'' p), st')
         | Some (FileNode c r w) \<Rightarrow>
             (if hasTrailingSlash p then (Inl (fsError ENOTDIR ''open'' p), st')
              else if r then (Inr c, st')
              else (Inl (fsError EACCES ''open'' p), st'))
         | Some (DirNode l cs) \<Rightarrow> (Inl (fsError EISDIR ''read'' p), st')
         | Some OtherNode \<Rightarrow> (Inl (fsError EACCES ''open'' p), st'))"

definition writeFile :: "string \<Rightarrow> string \<Rightarrow> fsState \<Rightarrow> (jsError + unit) \<times> fsState" where
  "writeFile p c st =
     (let st' = st\<lparr>oplog := oplog st @ [WriteFile p c]\<rparr>
      in if hasTrailingSlash p then (Inl (fsError EISDIR ''open'' p), st')
         else case writeAt (segments p) c (tree st) of
                Inl e \<Rightarrow> (Inl (fsError e ''open'' p), st')
              | Inr t \<Rightarrow> (Inr (), st'\<lparr>tree := t\<rparr>))"

definition unlink :: "string \<Rightarrow> fsState \<Rightarrow> (jsError + unit) \<times> fsState" where
  "unlink p st =
     (let st' = st\<lparr>oplog := oplog st @ [Unlink p]\<rparr>
      in if hasTrailingSlash p then
           (Inl (fsError (case lookupNode (segments p) (tree st) of
                            None \<Rightarrow> ENOENT
                          | Some (DirNode l cs) \<Rightarrow> EISDIR
                          | Some n \<Rightarrow> ENOTDIR) ''unlink'' p), st')
         else case unlinkAt (segments p) (tree st) of
                Inl e \<Rightarrow> (Inl (fsError e ''unlink'' p), st')
              | Inr t \<Rightarrow> (Inr (), st'\<lparr>tree := t\<rparr>))"

text \<open>\<open>fs.mkdir(p, { recursive: true })\<close>.\<close>

definition mkdir :: "string \<Rightarrow> fsState \<Rightarrow> (jsError + unit) \<times> fsState" where
  "mkdir p st =
     (let st' = st\<lparr>oplog := oplog st @ [Mkdir p]\<rparr>
      in case mkdirAt (segments p) (tree st) of
           Inl e \<Rightarrow> (Inl (fsError e ''mkdir'' p), st')
         | Inr t \<Rightarrow> (Inr (), st'\<lparr>tree := t\<rparr>))"

subsection \<open>Requests, responses and argument schemas\<close>

text \<open>
  The arguments of a call are a JSON object, or absent. The three schemas accept an
  object whose named fields have the declared primitive types; \<open>append\<close> is optional
  and defaults to \<open>false\<close>. The text that the validation library prints for a failed
  parse is a parameter of the model (\<open>zodError\<close>), as is the regular-expression engine
  (\<open>compileRegExp pattern flags\<close> is \<open>None\<close> when the constructor throws, otherwise the
  compiled expression's \<open>test\<close>).
\<close>

datatype json =
    JNull
  | JBool bool
  | JNum int
  | JStr string
  | JArr "json list"
  | JObj "(string \<times> json) list"

type_synonym args = "(string \<times> json) list option"

datatype contentBlock = Text (blockText: string)

record response =
  content :: "contentBlock list"
  isError :: bool

record env =
  obsidianVaultDir :: string
  compileRegExp :: "string \<Rightarrow> string \<Rightarrow> (string \<Rightarrow> bool) option"
  zodError :: "string \<Rightarrow> args \<Rightarrow> string"

definition parseWriteNoteArgs :: "args \<Rightarrow> (string \<times> string \<times> bool) option" where
  "parseWriteNoteArgs a =
     (case a of
        None \<Rightarrow> None
      | Some obj \<Rightarrow>
          (case (map_of obj ''path'', map_of obj ''content'') of
             (Some (JStr p), Some (JStr c)) \<Rightarrow>
               (case map_of obj ''append'' of
                  None \<Rightarrow> Some (p, c, False)
                | Some (JBool b) \<Rightarrow> Some (p, c, b)
                | Some _ \<Rightarrow> None)
           | _ \<Rightarrow> None))"

definition parseDeleteNoteArgs :: "args \<Rightarrow> string option" where
  "parseDeleteNoteArgs a =
     (case a of
        None \<Rightarrow> None
      | Some obj \<Rightarrow> (case map_of obj ''path'' of Some (JStr p) \<Rightarrow> Some p | _ \<Rightarrow> None))"

fun asStrings :: "json list \<Rightarrow> string list option" where
  "asStrings [] = Some []"
| "asStrings (JStr x # js) = (case asStrings js of None \<Rightarrow> None | Some xs \<Rightarrow> Some (x # xs))"
| "asStrings (_ # js) = None"

definition parseReadNotesArgs :: "args \<Rightarrow> string list option" where
  "parseReadNotesArgs a =
     (case a of
        None \<Rightarrow> None
      | Some obj \<Rightarrow> (case map_of obj ''paths'' of Some (JArr js) \<Rightarrow> asStrings js | _ \<Rightarrow> None))"

definition parseSearchNotesArgs :: "args \<Rightarrow> string option" where
  "parseSearchNotesArgs a =
     (case a of
        None \<Rightarrow> None
      | Some obj \<Rightarrow> (case map_of obj ''query'' of Some (JStr q) \<Rightarrow> Some q | _ \<Rightarrow> None))"

subsection \<open>findNotes\<close>

text \<open>
  \<open>toLowerCase\<close> is modelled on the letters \<open>A\<close> to \<open>Z\<close>; \<open>includesStr\<close> (the method \<open>includes\<close> of strings) is substring
  containment.
\<close>

definition toLowerChar :: "char \<Rightarrow> char" where
  "toLowerChar c =
     (case map_of (zip ''ABCDEFGHIJKLMNOPQRSTUVWXYZ'' ''abcdefghijklmnopqrstuvwxyz'') c of
        None \<Rightarrow> c
      | Some l \<Rightarrow> l)"

definition toLowerCase :: "string \<Rightarrow> string" where
  "toLowerCase s = map toLowerChar s"

fun includesStr :: "string \<Rightarrow> string \<Rightarrow> bool" where
  "includesStr [] sub = (sub = [])"
| "includesStr (c # cs) sub = (startsWith (c # cs) sub \<or> includesStr cs sub)"

text \<open>
  The guard that decides whether the search term is tried as a regular expression.
\<close>

definition isRegex :: "string \<Rightarrow> bool" where
  "isRegex searchTerm =
     (startsWith searchTerm ''/'' \<and>
      (endsWith searchTerm ''/'' \<or>
       endsWith searchTerm ''/i'' \<or>
       endsWith searchTerm ''/g'' \<or>
       endsWith searchTerm ''/gi'' \<or>
       endsWith searchTerm ''/ig''))"

text \<open>
  \<open>searchTerm.match(/^\/(.*)\/([gimuy]*)$/)\<close>. The first group is greedy and the second
  cannot contain a slash, so a match splits the term at its last slash; that slash must
  not be the leading one, everything after it must be a flag letter, and the dot of the
  first group does not match a line terminator.
\<close>

definition flagLetter :: "char \<Rightarrow> bool" where
  "flagLetter c = (c \<in> set ''gimuy'')"

definition lineTerminator :: "char \<Rightarrow> bool" where
  "lineTerminator c = (c = CHR 0x0A \<or> c = CHR 0x0D)"

definition delimMatch :: "string \<Rightarrow> (string \<times> string) option" where
  "delimMatch searchTerm =
     (case searchTerm of
        [] \<Rightarrow> None
      | c # body \<Rightarrow>
          (if c \<noteq> CHR ''/'' \<or> CHR ''/'' \<notin> set body then None
           else
             let flags = rev (takeWhile (\<lambda>x. x \<noteq> CHR ''/'') (rev body));
                 pattern = take (length body - length flags - 1) body
             in if list_all flagLetter flags \<and> \<not> list_ex lineTerminator pattern
                then Some (pattern, flags)
                else None))"

definition literalMatch :: "string \<Rightarrow> string \<Rightarrow> string \<Rightarrow> bool" where
  "literalMatch searchTerm nameWithoutExt name =
     (includesStr (toLowerCase nameWithoutExt) (toLowerCase searchTerm) \<or>
      includesStr (toLowerCase name) (toLowerCase searchTerm))"

text \<open>
  The body of the \<open>try\<close> for one \<open>.md\<close> file: whether its path is pushed onto
  \<open>results\<close>. Only the \<open>RegExp\<close> constructor can throw there, and the \<open>catch\<close> then
  runs the literal test. A fresh expression is compiled for every file and its second
  \<open>test\<close> runs only after the first one failed, which resets \<open>lastIndex\<close>; so the
  \<open>g\<close> flag does not make the two tests depend on each other.
\<close>

definition entryMatches ::
  "(string \<Rightarrow> string \<Rightarrow> (string \<Rightarrow> bool) option) \<Rightarrow> string \<Rightarrow> string \<Rightarrow> bool" where
  "entryMatches compile searchTerm name =
     (let nameWithoutExt = take (length name - 3) name
      in if isRegex searchTerm then
           (case delimMatch searchTerm of
              None \<Rightarrow> False
            | Some (pattern, flags) \<Rightarrow>
                (case compile pattern flags of
                   None \<Rightarrow> literalMatch searchTerm nameWithoutExt name
                 | Some test \<Rightarrow> test nameWithoutExt \<or> test name))
         else literalMatch searchTerm nameWithoutExt name)"

text \<open>
  \<open>searchDirectory\<close> lists a directory and visits its entries in order; \<open>results\<close> is
  the array that all recursive calls push onto. A listing that fails throws, which
  abandons the whole search. The directory reached through \<open>path.join(dirPath,
  entry.name)\<close> is the entry's own node.
\<close>

fun searchDirectory ::
    "(string \<Rightarrow> string \<Rightarrow> (string \<Rightarrow> bool) option) \<Rightarrow> string \<Rightarrow> string \<Rightarrow> fsnode \<Rightarrow>
     string list \<Rightarrow> jsError + string list"
  and searchEntries ::
    "(string \<Rightarrow> string \<Rightarrow> (string \<Rightarrow> bool) option) \<Rightarrow> string \<Rightarrow> string \<Rightarrow>
     (string \<times> fsnode) list \<Rightarrow> string list \<Rightarrow> jsError + string list"
where
  "searchDirectory compile searchTerm dirPath (DirNode l entries) results =
     (if l then searchEntries compile searchTerm dirPath entries results
      else Inl (fsError EACCES ''scandir'' dirPath))"
| "searchDirectory compile searchTerm dirPath (FileNode c r w) results =
     Inl (fsError ENOTDIR ''scandir'' dirPath)"
| "searchDirectory compile searchTerm dirPath OtherNode results =
     Inl (fsError ENOTDIR ''scandir'' dirPath)"
| "searchEntries compile searchTerm dirPath [] results = Inr results"
| "searchEntries compile searchTerm dirPath ((name, DirNode l entries) # rest) results =
     (if \<not> startsWith name ''.'' then
        (case searchDirectory compile searchTerm (join [dirPath, name]) (DirNode l entries) results of
           Inl e \<Rightarrow> Inl e
         | Inr results' \<Rightarrow> searchEntries compile searchTerm dirPath rest results')
      else searchEntries compile searchTerm dirPath rest results)"
| "searchEntries compile searchTerm dirPath ((name, FileNode c r w) # rest) results =
     (if endsWith name ''.md'' \<and> entryMatches compile searchTerm name
      then searchEntries compile searchTerm dirPath rest (results @ [join [dirPath, name]])
      else searchEntries compile searchTerm dirPath rest results)"
| "searchEntries compile searchTerm dirPath ((name, OtherNode) # rest) results =
     searchEntries compile searchTerm dirPath rest results"

definition findNotes :: "env \<Rightarrow> string \<Rightarrow> fsState \<Rightarrow> jsError + string list" where
  "findNotes e searchTerm st =
     (case lookupNode (segments (obsidianVaultDir e)) (tree st) of
        None \<Rightarrow> Inl (fsError ENOENT ''scandir'' (obsidianVaultDir e))
      | Some n \<Rightarrow> searchDirectory (compileRegExp e) searchTerm (obsidianVaultDir e) n [])"

subsection \<open>The tool handlers\<close>

text \<open>
  All separators in the handlers are written in the source with a doubled backslash
  before the letter \<open>n\<close>. In a string or template literal a doubled backslash
  denotes one backslash character, so the text produced is a backslash (code 0x5C)
  followed by the letter \<open>n\<close>, not a line feed (code 0x0A).
\<close>

definition backslashN :: string where
  "backslashN = [CHR 0x5C, CHR ''n'']"

text \<open>Decimal rendering of \<open>relativePaths.length\<close> in a template literal.\<close>

function showNat :: "nat \<Rightarrow> string" where
  "showNat n =
     (if n < 10 then [''0123456789'' ! n]
      else showNat (n div 10) @ [''0123456789'' ! (n mod 10)])"
  by pat_completeness auto
termination
  by (relation "measure id") auto

declare showNat.simps [simp del]

text \<open>
  A handler either throws (\<open>Inl\<close>) or returns a response (\<open>Inr\<close>); in both cases the
  file system may have changed.
\<close>

text \<open>
  The block of \<open>write_note\<close> that writes the file (\<open>if (parsed.data.append) ... else
  ...\<close>). The \<open>catch\<close> of the append branch catches a failed read and a failed first
  write alike, and writes the new content alone.
\<close>

definition writeOrAppend ::
  "string \<Rightarrow> string \<Rightarrow> bool \<Rightarrow> fsState \<Rightarrow> (jsError + unit) \<times> fsState" where
  "writeOrAppend validPath newContent appendFlag st =
     (if appendFlag then
        (case readFile validPath st of
           (Inl err, st1) \<Rightarrow> writeFile validPath newContent st1
         | (Inr existingContent, st1) \<Rightarrow>
             (case writeFile validPath
                     (existingContent @ backslashN @ backslashN @ newContent) st1 of
                (Inl err, st2) \<Rightarrow> writeFile validPath newContent st2
              | (Inr u, st2) \<Rightarrow> (Inr u, st2)))
      else writeFile validPath newContent st)"

definition writeNote :: "env \<Rightarrow> args \<Rightarrow> fsState \<Rightarrow> (jsError + response) \<times> fsState" where
  "writeNote e a st =
     (case parseWriteNoteArgs a of
        None \<Rightarrow>
          (Inl (Error (''Invalid arguments for write_note: '' @ zodError e ''write_note'' a)), st)
      | Some (notePath, newContent, appendFlag) \<Rightarrow>
          (case validatePath (obsidianVaultDir e) notePath of
             Inl err \<Rightarrow> (Inl err, st)
           | Inr validPath \<Rightarrow>
               (case mkdir (dirname validPath) st of
                  (Inl err, st1) \<Rightarrow> (Inl err, st1)
                | (Inr u, st1) \<Rightarrow>
                    (case writeOrAppend validPath newContent appendFlag st1 of
                       (Inl err, st2) \<Rightarrow> (Inl err, st2)
                     | (Inr u', st2) \<Rightarrow>
                         (Inr \<lparr>content =
                                 [Text (''Successfully '' @
                                        (if appendFlag then ''appended to'' else ''wrote'') @
                                        '' note: '' @ relative (obsidianVaultDir e) validPath)],
                               isError = False\<rparr>, st2)))))"

definition deleteNote :: "env \<Rightarrow> args \<Rightarrow> fsState \<Rightarrow> (jsError + response) \<times> fsState" where
  "deleteNote e a st =
     (case parseDeleteNoteArgs a of
        None \<Rightarrow>
          (Inl (Error (''Invalid arguments for delete_note: '' @ zodError e ''delete_note'' a)), st)
      | Some notePath \<Rightarrow>
          (case validatePath (obsidianVaultDir e) notePath of
             Inl err \<Rightarrow> (Inl err, st)
           | Inr validPath \<Rightarrow>
               (case unlink validPath st of
                  (Inl err, st1) \<Rightarrow>
                    (Inl (Error (''Failed to delete note: '' @ message err)), st1)
                | (Inr u, st1) \<Rightarrow>
                    (Inr \<lparr>content =
                            [Text (''Successfully deleted note: '' @
                                   relative (obsidianVaultDir e) validPath)],
                          isError = False\<rparr>, st1))))"

text \<open>
  The callback that \<open>read_notes\<close> maps over its paths: it never throws, its \<open>catch\<close>
  turns a rejected path or a failed read into a string. \<open>Promise.all\<close> keeps the
  results in the order of the paths; the reads change nothing, so they are taken one
  after the other.
\<close>

definition readNote :: "env \<Rightarrow> string \<Rightarrow> fsState \<Rightarrow> string \<times> fsState" where
  "readNote e notePath st =
     (case validatePath (obsidianVaultDir e) notePath of
        Inl err \<Rightarrow> (''Error reading note '' @ notePath @ '': '' @ message err, st)
      | Inr validPath \<Rightarrow>
          (case readFile validPath st of
             (Inl err, st1) \<Rightarrow> (''Error reading note '' @ notePath @ '': '' @ message err, st1)
           | (Inr noteContent, st1) \<Rightarrow>
               (''# '' @ relative (obsidianVaultDir e) validPath @ backslashN @ backslashN @
                noteContent @ backslashN, st1)))"

fun readAll :: "env \<Rightarrow> string list \<Rightarrow> fsState \<Rightarrow> string list \<times> fsState" where
  "readAll e [] st = ([], st)"
| "readAll e (notePath # rest) st =
     (case readNote e notePath st of
        (r, st1) \<Rightarrow> (case readAll e rest st1 of (rs, st2) \<Rightarrow> (r # rs, st2)))"

definition readNotes :: "env \<Rightarrow> args \<Rightarrow> fsState \<Rightarrow> (jsError + response) \<times> fsState" where
  "readNotes e a st =
     (case parseReadNotesArgs a of
        None \<Rightarrow>
          (Inl (Error (''Invalid arguments for read_notes: '' @ zodError e ''read_notes'' a)), st)
      | Some paths \<Rightarrow>
          (case readAll e paths st of
             (results, st1) \<Rightarrow>
               (Inr \<lparr>content = [Text (joinWith (backslashN @ ''---'' @ backslashN) results)],
                     isError = False\<rparr>, st1)))"

definition searchNotes :: "env \<Rightarrow> args \<Rightarrow> fsState \<Rightarrow> (jsError + response) \<times> fsState" where
  "searchNotes e a st =
     (case parseSearchNotesArgs a of
        None \<Rightarrow>
          (Inl (Error (''Invalid arguments for search_notes: '' @ zodError e ''search_notes'' a)), st)
      | Some query \<Rightarrow>
          (case findNotes e query st of
             Inl err \<Rightarrow> (Inl err, st)
           | Inr results \<Rightarrow>
               (let relativePaths = map (relative (obsidianVaultDir e)) results
                in (Inr \<lparr>content =
                           [Text (if length relativePaths > 0
                                  then ''Found '' @ showNat (length relativePaths) @ '' notes:'' @
                                       backslashN @ joinWith backslashN relativePaths
                                  else ''No notes found matching '' @ [CHR 0x22] @ query @ [CHR 0x22])],
                         isError = False\<rparr>, st))))"

subsection \<open>The dispatcher\<close>

text \<open>
  The handler of \<open>CallToolRequestSchema\<close>: a \<open>switch\<close> on the tool name inside one
  \<open>try\<close>, whose \<open>catch\<close> turns whatever was thrown into an error response.
\<close>

definition dispatch :: "env \<Rightarrow> string \<Rightarrow> args \<Rightarrow> fsState \<Rightarrow> (jsError + response) \<times> fsState" where
  "dispatch e name a st =
     (if name = ''write_note'' then writeNote e a st
      else if name = ''delete_note'' then deleteNote e a st
      else if name = ''read_notes'' then readNotes e a st
      else if name = ''search_notes'' then searchNotes e a st
      else (Inl (Error (''Unknown tool: '' @ name)), st))"

definition callTool :: "env \<Rightarrow> string \<Rightarrow> args \<Rightarrow> fsState \<Rightarrow> response \<times> fsState" where
  "callTool e name a st =
     (case dispatch e name a st of
        (Inr r, st1) \<Rightarrow> (r, st1)
      | (Inl err, st1) \<Rightarrow>
          (\<lparr>content = [Text (''Error: '' @ message err)], isError = True\<rparr>, st1))"

subsection \<open>A small vault used in the examples\<close>

definition demoEnv :: env where
  "demoEnv =
     \<lparr>obsidianVaultDir = ''/vault'',
      compileRegExp = (\<lambda>pattern flags. None),
      zodError = (\<lambda>tool a. ''invalid'')\<rparr>"

definition demoFs :: fsState where
  "demoFs =
     \<lparr>tree =
        DirNode True
          [(''vault'',
            DirNode True
              [(''exists.md'', FileNode ''hello'' True True),
               (''Project.md'', FileNode ''plan'' True True),
               (''.obsidian'', DirNode True [(''proj-cache.md'', FileNode [] True True)]),
               (''sub'',
                DirNode True
                  [(''my-proj-notes.md'', FileNode [] True True),
                   (''project.txt'', FileNode [] True True)]),
               (''locked.md'', FileNode ''old'' False True)]),
           (''vault-evil'', DirNode True [(''secret.md'', FileNode ''s'' True True)])],
      oplog = []\<rparr>"

definition demoReadArgs :: args where
  "demoReadArgs = Some [(''paths'', JArr [JStr ''exists'', JStr ''missing'', JStr ''../../etc/passwd''])]"

definition writeArgs :: "string \<Rightarrow> string \<Rightarrow> bool \<Rightarrow> args" where
  "writeArgs p c appendFlag = Some [(''path'', JStr p), (''content'', JStr c), (''append'', JBool appendFlag)]"

subsection \<open>Vocabulary of the properties\<close>

text \<open>
  The sandbox invariant that the guard is meant to establish: the canonical form of a
  path lies strictly below the vault root.
\<close>

definition insideVault :: "string \<Rightarrow> string \<Rightarrow> bool" where
  "insideVault root p = startsWith (normalize p) (root @ ''/'')"

text \<open>
  The text after the last slash of a string (the whole string when it has no slash).
\<close>

definition afterLastSlash :: "string \<Rightarrow> string" where
  "afterLastSlash q = rev (takeWhile (\<lambda>x. x \<noteq> CHR ''/'') (rev q))"

text \<open>
  The classification of a query in the words of the specification: the term begins
  with a slash and ends with a slash followed by flag letters only. Since a flag letter
  is not a slash, those letters are the text after the last slash.
\<close>

definition specDelimited :: "string \<Rightarrow> bool" where
  "specDelimited q = (startsWith q ''/'' \<and> list_all flagLetter (afterLastSlash q))"









section \<open>Properties\<close>

subsection \<open>Reading does not change the tree\<close>

lemma readFile_tree: "tree (snd (readFile p st)) = tree st"
  by (simp add: readFile_def Let_def split: option.splits fsnode.splits)

lemma readFile_fst_cong: "tree st = tree st' \<Longrightarrow> fst (readFile p st) = fst (readFile p st')"
  by (simp add: readFile_def Let_def split: option.splits fsnode.splits)


lemma readNote_fst:
  "fst (readNote e p st) =
     (case validatePath (obsidianVaultDir e) p of
        Inl err \<Rightarrow> ''Error reading note '' @ p @ '': '' @ message err
      | Inr validPath \<Rightarrow>
          (case fst (readFile validPath st) of
             Inl err \<Rightarrow> ''Error reading note '' @ p @ '': '' @ message err
           | Inr noteContent \<Rightarrow>
               ''# '' @ relative (obsidianVaultDir e) validPath @ backslashN @ backslashN @
               noteContent @ backslashN))"
proof (cases "validatePath (obsidianVaultDir e) p")
  case (Inl err)
  then show ?thesis by (simp add: readNote_def)
next
  case (Inr vp)
  obtain x st1 where x: "readFile vp st = (x, st1)" by (cases "readFile vp st")
  show ?thesis using Inr x by (cases x) (simp_all add: readNote_def)
qed

lemma readNote_tree: "tree (snd (readNote e p st)) = tree st"
proof (cases "validatePath (obsidianVaultDir e) p")
  case (Inl err)
  then show ?thesis by (simp add: readNote_def)
next
  case (Inr vp)
  obtain x st1 where x: "readFile vp st = (x, st1)" by (cases "readFile vp st")
  have "tree st1 = tree st" using readFile_tree[of vp st] x by simp
  then show ?thesis using Inr x by (cases x) (simp_all add: readNote_def)
qed

lemma readNote_fst_cong: "tree st = tree st' \<Longrightarrow> fst (readNote e p st) = fst (readNote e p st')"
  by (simp add: readNote_fst readFile_fst_cong[of st st'] cong: sum.case_cong)

lemma readAll_fst: "fst (readAll e ps st) = map (\<lambda>p. fst (readNote e p st)) ps"
proof (induction ps arbitrary: st)
  case Nil
  show ?case by simp
next
  case (Cons p ps)
  obtain r st1 where r: "readNote e p st = (r, st1)" by (cases "readNote e p st")
  have t: "tree st1 = tree st" using readNote_tree[of e p st] r by simp
  obtain rs st2 where rs: "readAll e ps st1 = (rs, st2)" by (cases "readAll e ps st1")
  have "rs = map (\<lambda>p. fst (readNote e p st1)) ps" using Cons.IH[of st1] rs by simp
  also have "\<dots> = map (\<lambda>p. fst (readNote e p st)) ps"
    using readNote_fst_cong[OF t] by simp
  finally show ?case using r rs by simp
qed

lemma writeNote_success: "writeNote e a st = (Inr r, st1) \<Longrightarrow> \<not> isError r"
proof -
  assume h: "writeNote e a st = (Inr r, st1)"
  show ?thesis
  proof (cases "parseWriteNoteArgs a")
    case None
    with h show ?thesis by (simp add: writeNote_def)
  next
    case (Some t)
    obtain p c ap where t: "t = (p, c, ap)" by (cases t)
    show ?thesis
    proof (cases "validatePath (obsidianVaultDir e) p")
      case (Inl err)
      with h Some t show ?thesis by (simp add: writeNote_def)
    next
      case (Inr vp)
      obtain m sa where m: "mkdir (dirname vp) st = (m, sa)" by (cases "mkdir (dirname vp) st")
      obtain w sb where w: "writeOrAppend vp c ap sa = (w, sb)" by (cases "writeOrAppend vp c ap sa")
      show ?thesis using h Some t Inr m w
        by (cases m; cases w) (auto simp: writeNote_def)
    qed
  qed
qed

lemma deleteNote_success: "deleteNote e a st = (Inr r, st1) \<Longrightarrow> \<not> isError r"
  by (auto simp: deleteNote_def split: option.splits sum.splits prod.splits)

lemma readNotes_success: "readNotes e a st = (Inr r, st1) \<Longrightarrow> \<not> isError r"
  by (auto simp: readNotes_def split: option.splits prod.splits)

lemma searchNotes_success: "searchNotes e a st = (Inr r, st1) \<Longrightarrow> \<not> isError r"
  by (auto simp: searchNotes_def Let_def split: option.splits sum.splits)

lemma dispatch_success: "dispatch e name a st = (Inr r, st1) \<Longrightarrow> \<not> isError r"
  by (auto simp: dispatch_def split: if_splits
           dest: writeNote_success deleteNote_success readNotes_success searchNotes_success)

subsection \<open>The dispatcher boundary\<close>

text \<open>
  C5. Every call yields a response and nothing is thrown past \<open>callTool\<close>: a name
  outside the four tools yields the error response \<open>Error: Unknown tool: name\<close>;
  whatever a handler throws becomes a response whose text is \<open>Error: \<close> followed by
  the message, with \<open>isError\<close> set; a handler's own response is passed on; and a
  response carries \<open>isError\<close> only if its text begins with \<open>Error: \<close>.
\<close>

theorem callTool_boundary:
  "(name \<notin> {''write_note'', ''delete_note'', ''read_notes'', ''search_notes''} \<longrightarrow>
      callTool e name a st =
        (\<lparr>content = [Text (''Error: Unknown tool: '' @ name)], isError = True\<rparr>, st)) \<and>
   (\<forall>err st1. dispatch e name a st = (Inl err, st1) \<longrightarrow>
      callTool e name a st =
        (\<lparr>content = [Text (''Error: '' @ message err)], isError = True\<rparr>, st1)) \<and>
   (\<forall>r st1. dispatch e name a st = (Inr r, st1) \<longrightarrow>
      callTool e name a st = (r, st1) \<and> \<not> isError r) \<and>
   (isError (fst (callTool e name a st)) \<longrightarrow>
      (\<exists>msg. content (fst (callTool e name a st)) = [Text (''Error: '' @ msg)]))"
proof -
  obtain x st1 where d: "dispatch e name a st = (x, st1)" by (cases "dispatch e name a st")
  have unknown: "name \<notin> {''write_note'', ''delete_note'', ''read_notes'', ''search_notes''} \<Longrightarrow>
      dispatch e name a st = (Inl (Error (''Unknown tool: '' @ name)), st)"
    by (simp add: dispatch_def)
  show ?thesis
  proof (cases x)
    case (Inl err)
    then show ?thesis using d unknown by (auto simp: callTool_def)
  next
    case (Inr r)
    then show ?thesis using d unknown dispatch_success[of e name a st r st1]
      by (auto simp: callTool_def)
  qed
qed

theorem callTool_boundary_witness:
  "''frobnicate'' \<notin> {''write_note'', ''delete_note'', ''read_notes'', ''search_notes''} \<and>
   dispatch demoEnv ''frobnicate'' None demoFs = (Inl (Error ''Unknown tool: frobnicate''), demoFs) \<and>
   callTool demoEnv ''frobnicate'' None demoFs =
     (\<lparr>content = [Text ''Error: Unknown tool: frobnicate''], isError = True\<rparr>, demoFs) \<and>
   isError (fst (callTool demoEnv ''frobnicate'' None demoFs)) \<and>
   dispatch demoEnv ''search_notes'' (Some [(''query'', JStr ''zzz'')]) demoFs =
     (Inr \<lparr>content = [Text (''No notes found matching '' @ [CHR 0x22] @ ''zzz'' @ [CHR 0x22])],
           isError = False\<rparr>, demoFs) \<and>
   callTool demoEnv ''search_notes'' (Some [(''query'', JStr ''zzz'')]) demoFs =
     (\<lparr>content = [Text (''No notes found matching '' @ [CHR 0x22] @ ''zzz'' @ [CHR 0x22])],
       isError = False\<rparr>, demoFs)"
proof -
  have d1: "dispatch demoEnv ''frobnicate'' None demoFs =
              (Inl (Error ''Unknown tool: frobnicate''), demoFs)"
    by (simp add: dispatch_def)
  have d2: "dispatch demoEnv ''search_notes'' (Some [(''query'', JStr ''zzz'')]) demoFs =
     (Inr \<lparr>content = [Text (''No notes found matching '' @ [CHR 0x22] @ ''zzz'' @ [CHR 0x22])],
           isError = False\<rparr>, demoFs)"
    by code_simp
  show ?thesis
    using callTool_boundary[of "''frobnicate''" demoEnv None demoFs]
          callTool_boundary[of "''search_notes''" demoEnv "Some [(''query'', JStr ''zzz'')]" demoFs]
          d1 d2
    by simp
qed

subsection \<open>Batch reads\<close>

lemma callTool_readNotes:
  assumes "parseReadNotesArgs a = Some paths"
  shows "fst (callTool e ''read_notes'' a st) =
           \<lparr>content = [Text (joinWith (backslashN @ ''---'' @ backslashN)
                                 (map (\<lambda>p. fst (readNote e p st)) paths))],
            isError = False\<rparr>"
proof -
  obtain rs st1 where r: "readAll e paths st = (rs, st1)" by (cases "readAll e paths st")
  have "rs = map (\<lambda>p. fst (readNote e p st)) paths" using readAll_fst[of e paths st] r by simp
  then show ?thesis using assms r by (simp add: callTool_def dispatch_def readNotes_def)
qed

text \<open>
  C3. Once the arguments of \<open>read_notes\<close> validate, the call never carries \<open>isError\<close>:
  the text of its response joins one string per path, and for a path that the guard
  rejects or whose file cannot be read that string is the inline message
  \<open>Error reading note <path>: <message>\<close>; every other path is still read and its
  content returned.
\<close>

theorem readNotes_isolates_failures:
  "parseReadNotesArgs a = Some paths \<Longrightarrow>
     \<not> isError (fst (callTool e ''read_notes'' a st)) \<and>
     content (fst (callTool e ''read_notes'' a st)) =
       [Text (joinWith (backslashN @ ''---'' @ backslashN)
                (map (\<lambda>p. fst (readNote e p st)) paths))] \<and>
     (\<forall>p err. validatePath (obsidianVaultDir e) p = Inl err \<longrightarrow>
        fst (readNote e p st) = ''Error reading note '' @ p @ '': '' @ message err) \<and>
     (\<forall>p vp err. validatePath (obsidianVaultDir e) p = Inr vp \<and> fst (readFile vp st) = Inl err \<longrightarrow>
        fst (readNote e p st) = ''Error reading note '' @ p @ '': '' @ message err) \<and>
     (\<forall>p vp c. validatePath (obsidianVaultDir e) p = Inr vp \<and> fst (readFile vp st) = Inr c \<longrightarrow>
        fst (readNote e p st) =
          ''# '' @ relative (obsidianVaultDir e) vp @ backslashN @ backslashN @ c @ backslashN)"
  by (simp add: callTool_readNotes readNote_fst)

lemma demo_validate:
  "validatePath (obsidianVaultDir demoEnv) ''exists'' = Inr ''/vault/exists.md''"
  "validatePath (obsidianVaultDir demoEnv) ''missing'' = Inr ''/vault/missing.md''"
  "validatePath (obsidianVaultDir demoEnv) ''../../etc/passwd'' =
     Inl (Error ''Access denied - path outside Obsidian vault: /etc/passwd'')"
  by code_simp+

lemma demo_read:
  "fst (readFile ''/vault/exists.md'' demoFs) = Inr ''hello''"
  "fst (readFile ''/vault/missing.md'' demoFs) =
     Inl (Error (''ENOENT: no such file or directory, open '' @ [CHR 0x27] @ ''/vault/missing.md'' @ [CHR 0x27]))"
  by code_simp+

theorem readNotes_isolates_failures_witness:
  "parseReadNotesArgs demoReadArgs = Some [''exists'', ''missing'', ''../../etc/passwd''] \<and>
   \<not> isError (fst (callTool demoEnv ''read_notes'' demoReadArgs demoFs)) \<and>
   validatePath (obsidianVaultDir demoEnv) ''../../etc/passwd'' =
     Inl (Error ''Access denied - path outside Obsidian vault: /etc/passwd'') \<and>
   fst (readNote demoEnv ''../../etc/passwd'' demoFs) =
     ''Error reading note ../../etc/passwd: Access denied - path outside Obsidian vault: /etc/passwd'' \<and>
   validatePath (obsidianVaultDir demoEnv) ''missing'' = Inr ''/vault/missing.md'' \<and>
   fst (readFile ''/vault/missing.md'' demoFs) =
     Inl (Error (''ENOENT: no such file or directory, open '' @ [CHR 0x27] @ ''/vault/missing.md'' @ [CHR 0x27])) \<and>
   fst (readNote demoEnv ''missing'' demoFs) =
     ''Error reading note missing: ENOENT: no such file or directory, open '' @ [CHR 0x27] @ ''/vault/missing.md'' @ [CHR 0x27] \<and>
   validatePath (obsidianVaultDir demoEnv) ''exists'' = Inr ''/vault/exists.md'' \<and>
   fst (readFile ''/vault/exists.md'' demoFs) = Inr ''hello'' \<and>
   fst (readNote demoEnv ''exists'' demoFs) = ''# exists.md'' @ backslashN @ backslashN @ ''hello'' @ backslashN"
proof -
  have p: "parseReadNotesArgs demoReadArgs = Some [''exists'', ''missing'', ''../../etc/passwd'']"
    by (simp add: parseReadNotesArgs_def demoReadArgs_def)
  have rel: "relative (obsidianVaultDir demoEnv) ''/vault/exists.md'' = ''exists.md''"
    by code_simp
  show ?thesis
    using readNotes_isolates_failures[OF p, of demoEnv demoFs] p demo_validate demo_read rel
    by simp
qed

text \<open>
  C4, as stated, fails: for two paths the response holds one content block, not two.
\<close>

theorem readNotes_blocks_counterexample:
  "parseReadNotesArgs (Some [(''paths'', JArr [JStr ''exists'', JStr ''missing''])]) =
     Some [''exists'', ''missing''] \<and>
   length (content (fst (callTool demoEnv ''read_notes''
                           (Some [(''paths'', JArr [JStr ''exists'', JStr ''missing''])]) demoFs)))
     \<noteq> length [''exists'', ''missing'']"
proof -
  have p: "parseReadNotesArgs (Some [(''paths'', JArr [JStr ''exists'', JStr ''missing''])]) =
     Some [''exists'', ''missing'']"
    by (simp add: parseReadNotesArgs_def)
  show ?thesis using p by (simp add: callTool_readNotes[OF p])
qed

text \<open>
  C4, amended. For every list of \<open>n\<close> paths the response of \<open>read_notes\<close> holds exactly
  one content block; its text joins \<open>n\<close> strings, and the \<open>i\<close>-th string is the result
  (content or inline error) for the \<open>i\<close>-th input path.
\<close>

theorem readNotes_one_block_in_order:
  "parseReadNotesArgs a = Some paths \<Longrightarrow>
     (let items = map (\<lambda>p. fst (readNote e p st)) paths
      in content (fst (callTool e ''read_notes'' a st)) =
           [Text (joinWith (backslashN @ ''---'' @ backslashN) items)] \<and>
         length items = length paths \<and>
         (\<forall>i<length paths. items ! i = fst (readNote e (paths ! i) st)))"
  by (simp add: callTool_readNotes Let_def)

theorem readNotes_one_block_in_order_witness:
  "parseReadNotesArgs (Some [(''paths'', JArr [JStr ''exists'', JStr ''missing''])]) =
     Some [''exists'', ''missing''] \<and>
   content (fst (callTool demoEnv ''read_notes''
                   (Some [(''paths'', JArr [JStr ''exists'', JStr ''missing''])]) demoFs)) =
     [Text (''# exists.md'' @ backslashN @ backslashN @ ''hello'' @ backslashN @
            backslashN @ ''---'' @ backslashN @
            ''Error reading note missing: ENOENT: no such file or directory, open '' @
            [CHR 0x27] @ ''/vault/missing.md'' @ [CHR 0x27])]"
proof -
  have p: "parseReadNotesArgs (Some [(''paths'', JArr [JStr ''exists'', JStr ''missing''])]) =
     Some [''exists'', ''missing'']"
    by (simp add: parseReadNotesArgs_def)
  have i1: "fst (readNote demoEnv ''exists'' demoFs) =
              ''# exists.md'' @ backslashN @ backslashN @ ''hello'' @ backslashN"
    by code_simp
  have i2: "fst (readNote demoEnv ''missing'' demoFs) =
              ''Error reading note missing: ENOENT: no such file or directory, open '' @
              [CHR 0x27] @ ''/vault/missing.md'' @ [CHR 0x27]"
    by code_simp
  show ?thesis
    using readNotes_one_block_in_order[OF p, of demoEnv demoFs] p i1 i2
    by (simp add: Let_def)
qed

subsection \<open>Writing and appending\<close>

lemma map_of_setChild: "map_of (setChild k v cs) k = Some v"
  by (induction cs) auto

lemma writeAt_lookup:
  "writeAt segs c t = Inr t' \<Longrightarrow> \<exists>r w. lookupNode segs t' = Some (FileNode c r w)"
  by (induction segs c t arbitrary: t' rule: writeAt.induct)
     (auto simp: map_of_setChild split: option.splits fsnode.splits sum.splits if_splits)

lemma writeFile_content:
  "writeFile p c st = (Inr u, st') \<Longrightarrow>
     \<exists>r w. lookupNode (segments p) (tree st') = Some (FileNode c r w)"
  by (auto simp: writeFile_def Let_def split: if_splits sum.splits dest: writeAt_lookup)

lemma parseWriteNoteArgs_writeArgs: "parseWriteNoteArgs (writeArgs p c b) = Some (p, c, b)"
  by (simp add: parseWriteNoteArgs_def writeArgs_def)

text \<open>
  C10. When \<open>write_note\<close> is called with \<open>append\<close> set and reading the existing file
  fails, whatever the reason, the handler writes the new content alone: if that write
  succeeds the call reports success, the read failure appears nowhere in the response,
  and the file holds exactly the new content.
\<close>

theorem writeNote_append_read_failure:
  assumes "parseWriteNoteArgs a = Some (p, c, True)"
    and "validatePath (obsidianVaultDir e) p = Inr vp"
    and "mkdir (dirname vp) st = (Inr (), st1)"
    and "readFile vp st1 = (Inl err, st2)"
    and "writeFile vp c st2 = (Inr (), st3)"
  shows "writeOrAppend vp c True st1 = writeFile vp c st2 \<and>
         callTool e ''write_note'' a st =
           (\<lparr>content = [Text (''Successfully appended to note: '' @
                               relative (obsidianVaultDir e) vp)],
             isError = False\<rparr>, st3) \<and>
         (\<exists>r w. lookupNode (segments vp) (tree st3) = Some (FileNode c r w))"
proof -
  have w: "writeOrAppend vp c True st1 = writeFile vp c st2"
    using assms(4) by (simp add: writeOrAppend_def)
  have "writeNote e a st =
          (Inr \<lparr>content = [Text (''Successfully appended to note: '' @
                                  relative (obsidianVaultDir e) vp)],
                isError = False\<rparr>, st3)"
    using assms w by (simp add: writeNote_def)
  then have "callTool e ''write_note'' a st =
           (\<lparr>content = [Text (''Successfully appended to note: '' @
                               relative (obsidianVaultDir e) vp)],
             isError = False\<rparr>, st3)"
    by (simp add: callTool_def dispatch_def)
  then show ?thesis using w writeFile_content[OF assms(5)] by simp
qed

theorem writeNote_append_read_failure_witness:
  "parseWriteNoteArgs (writeArgs ''locked'' ''new'' True) = Some (''locked'', ''new'', True) \<and>
   validatePath (obsidianVaultDir demoEnv) ''locked'' = Inr ''/vault/locked.md'' \<and>
   mkdir (dirname ''/vault/locked.md'') demoFs = (Inr (), demoFs\<lparr>oplog := [Mkdir ''/vault'']\<rparr>) \<and>
   lookupNode (segments ''/vault/locked.md'') (tree demoFs) = Some (FileNode ''old'' False True) \<and>
   readFile ''/vault/locked.md'' (demoFs\<lparr>oplog := [Mkdir ''/vault'']\<rparr>) =
     (Inl (fsError EACCES ''open'' ''/vault/locked.md''),
      demoFs\<lparr>oplog := [Mkdir ''/vault'', ReadFile ''/vault/locked.md'']\<rparr>) \<and>
   fst (writeFile ''/vault/locked.md'' ''new''
          (demoFs\<lparr>oplog := [Mkdir ''/vault'', ReadFile ''/vault/locked.md'']\<rparr>)) = Inr () \<and>
   fst (callTool demoEnv ''write_note'' (writeArgs ''locked'' ''new'' True) demoFs) =
     \<lparr>content = [Text ''Successfully appended to note: locked.md''], isError = False\<rparr> \<and>
   lookupNode (segments ''/vault/locked.md'')
     (tree (snd (callTool demoEnv ''write_note'' (writeArgs ''locked'' ''new'' True) demoFs))) =
     Some (FileNode ''new'' False True)"
proof -
  have p: "parseWriteNoteArgs (writeArgs ''locked'' ''new'' True) = Some (''locked'', ''new'', True)"
    by (rule parseWriteNoteArgs_writeArgs)
  have v: "validatePath (obsidianVaultDir demoEnv) ''locked'' = Inr ''/vault/locked.md''"
    by code_simp
  have m: "mkdir (dirname ''/vault/locked.md'') demoFs =
             (Inr (), demoFs\<lparr>oplog := [Mkdir ''/vault'']\<rparr>)"
    by code_simp
  have l: "lookupNode (segments ''/vault/locked.md'') (tree demoFs) =
             Some (FileNode ''old'' False True)"
    by code_simp
  have r: "readFile ''/vault/locked.md'' (demoFs\<lparr>oplog := [Mkdir ''/vault'']\<rparr>) =
     (Inl (fsError EACCES ''open'' ''/vault/locked.md''),
      demoFs\<lparr>oplog := [Mkdir ''/vault'', ReadFile ''/vault/locked.md'']\<rparr>)"
    by code_simp
  have f: "fst (writeFile ''/vault/locked.md'' ''new''
          (demoFs\<lparr>oplog := [Mkdir ''/vault'', ReadFile ''/vault/locked.md'']\<rparr>)) = Inr ()"
    by code_simp
  then obtain st3 where wf: "writeFile ''/vault/locked.md'' ''new''
          (demoFs\<lparr>oplog := [Mkdir ''/vault'', ReadFile ''/vault/locked.md'']\<rparr>) = (Inr (), st3)"
    by (cases "writeFile ''/vault/locked.md'' ''new''
          (demoFs\<lparr>oplog := [Mkdir ''/vault'', ReadFile ''/vault/locked.md'']\<rparr>)") auto
  have rel: "relative (obsidianVaultDir demoEnv) ''/vault/locked.md'' = ''locked.md''"
    by code_simp
  have fin: "lookupNode (segments ''/vault/locked.md'')
     (tree (snd (callTool demoEnv ''write_note'' (writeArgs ''locked'' ''new'' True) demoFs))) =
     Some (FileNode ''new'' False True)"
    by code_simp
  show ?thesis
    using writeNote_append_read_failure[OF p v m r wf] p v m l r f rel fin
    by simp
qed

text \<open>
  C6. Evaluation of the code on the example of the claim: \<open>n.md\<close> does not exist, \<open>A\<close> is
  written to \<open>n\<close> and \<open>B\<close> is appended. The file then holds \<open>A\<close>, a backslash, \<open>n\<close>,
  a backslash, \<open>n\<close>, \<open>B\<close>: six characters, none of them a line feed, where a blank-line
  separator would give \<open>A\<close>, two line feeds, \<open>B\<close>. Appending to a file that does not
  exist creates it with the appended content alone.
\<close>

theorem writeNote_append_separator_evaluated:
  "lookupNode (segments ''/vault/n.md'') (tree demoFs) = None \<and>
   lookupNode (segments ''/vault/n.md'')
     (tree (snd (callTool demoEnv ''write_note'' (writeArgs ''n'' ''B'' True)
                   (snd (callTool demoEnv ''write_note'' (writeArgs ''n'' ''A'' False) demoFs))))) =
     Some (FileNode [CHR ''A'', CHR 0x5C, CHR ''n'', CHR 0x5C, CHR ''n'', CHR ''B''] True True) \<and>
   [CHR ''A'', CHR 0x5C, CHR ''n'', CHR 0x5C, CHR ''n'', CHR ''B''] \<noteq>
     [CHR ''A'', CHR 0x0A, CHR 0x0A, CHR ''B''] \<and>
   lookupNode (segments ''/vault/n.md'')
     (tree (snd (callTool demoEnv ''write_note'' (writeArgs ''n'' ''B'' True) demoFs))) =
     Some (FileNode ''B'' True True)"
  by code_simp

subsection \<open>The path guard\<close>

text \<open>
  C1. Evaluation of the code on a path that leaves the vault: with the root \<open>/vault\<close>,
  the relative path \<open>../vault-evil/secret\<close> and the absolute path
  \<open>/vault-evil/secret\<close> are both accepted, because the string \<open>/vault-evil/secret\<close>
  starts with the string \<open>/vault\<close>; the path returned is not inside the vault, and
  \<open>read_notes\<close> returns the content of that file. The empty path resolves to
  \<open>/vault.md\<close>, beside the vault. Against the root \<open>/\<close> the path
  \<open>../../etc/passwd\<close> is accepted.
\<close>

theorem validatePath_sibling_directory_evaluated:
  "validatePath ''/vault'' ''../vault-evil/secret'' = Inr ''/vault-evil/secret.md'' \<and>
   validatePath ''/vault'' ''/vault-evil/secret'' = Inr ''/vault-evil/secret.md'' \<and>
   \<not> insideVault ''/vault'' ''/vault-evil/secret.md'' \<and>
   fst (callTool demoEnv ''read_notes'' (Some [(''paths'', JArr [JStr ''../vault-evil/secret''])]) demoFs) =
     \<lparr>content = [Text (''# ../vault-evil/secret.md'' @ [CHR 0x5C, CHR ''n'', CHR 0x5C, CHR ''n''] @
                        ''s'' @ [CHR 0x5C, CHR ''n''])],
      isError = False\<rparr> \<and>
   validatePath ''/vault'' [] = Inr ''/vault.md'' \<and>
   \<not> insideVault ''/vault'' ''/vault.md'' \<and>
   validatePath ''/'' ''../../etc/passwd'' = Inr ''/etc/passwd.md''"
  by code_simp

subsection \<open>Query classification\<close>

lemma endsWith_iff: "endsWith s p \<longleftrightarrow> (\<exists>pre. s = pre @ p)"
proof
  assume "endsWith s p"
  then have "s = take (length s - length p) s @ p"
    by (metis append_take_drop_id endsWith_def)
  then show "\<exists>pre. s = pre @ p" ..
next
  assume "\<exists>pre. s = pre @ p"
  then show "endsWith s p" by (auto simp: endsWith_def)
qed

lemma startsWith_slash: "startsWith q ''/'' \<longleftrightarrow> (\<exists>body. q = CHR ''/'' # body)"
  by (cases q) (auto simp: startsWith_def)

lemma afterLastSlash_no_slash: "CHR ''/'' \<notin> set (afterLastSlash q)"
  unfolding afterLastSlash_def using set_takeWhileD by fastforce

lemma split_at_last_slash:
  assumes "CHR ''/'' \<in> set q"
  shows "q = take (length q - length (afterLastSlash q) - 1) q @ CHR ''/'' # afterLastSlash q"
proof -
  let ?P = "\<lambda>x. x \<noteq> CHR ''/''"
  have "dropWhile ?P (rev q) \<noteq> []" using assms by (simp add: dropWhile_eq_Nil_conv)
  moreover have "\<not> ?P (hd (dropWhile ?P (rev q)))"
    using calculation hd_dropWhile by blast
  ultimately obtain r where r: "dropWhile ?P (rev q) = CHR ''/'' # r"
    by (cases "dropWhile ?P (rev q)") auto
  have "rev q = takeWhile ?P (rev q) @ CHR ''/'' # r"
    using r takeWhile_dropWhile_id[of ?P "rev q"] by simp
  then have "q = rev r @ CHR ''/'' # afterLastSlash q"
    by (metis afterLastSlash_def rev_append rev.simps(2) rev_rev_ident append.assoc append_Cons append_Nil)
  then have q: "q = rev r @ CHR ''/'' # afterLastSlash q" .
  have "length q = length r + 1 + length (afterLastSlash q)"
    using arg_cong[OF q, of length] by simp
  then have "take (length q - length (afterLastSlash q) - 1) q = rev r"
    using q by (metis add_diff_cancel_right' append_eq_conv_conj length_rev)
  then show ?thesis using q by simp
qed

lemma afterLastSlash_append:
  assumes "CHR ''/'' \<notin> set fl"
  shows "afterLastSlash (pre @ CHR ''/'' # fl) = fl"
proof -
  have "\<forall>x\<in>set (rev fl). x \<noteq> CHR ''/''" using assms by auto
  then have "takeWhile (\<lambda>x. x \<noteq> CHR ''/'') (rev fl @ CHR ''/'' # rev pre) = rev fl"
    by (subst takeWhile_append2) auto
  then show ?thesis by (simp add: afterLastSlash_def)
qed

lemma endsWith_slash_flags:
  assumes "CHR ''/'' \<notin> set fl"
  shows "endsWith q (CHR ''/'' # fl) \<longleftrightarrow> CHR ''/'' \<in> set q \<and> afterLastSlash q = fl"
proof
  assume "endsWith q (CHR ''/'' # fl)"
  then obtain pre where "q = pre @ CHR ''/'' # fl" by (auto simp: endsWith_iff)
  then show "CHR ''/'' \<in> set q \<and> afterLastSlash q = fl"
    using afterLastSlash_append[OF assms] by simp
next
  assume "CHR ''/'' \<in> set q \<and> afterLastSlash q = fl"
  then show "endsWith q (CHR ''/'' # fl)"
    using split_at_last_slash[of q] endsWith_iff by metis
qed

lemma flagLetter_not_slash: "\<not> flagLetter (CHR ''/'')"
  by (simp add: flagLetter_def)

lemma flags_no_slash: "list_all flagLetter fl \<Longrightarrow> CHR ''/'' \<notin> set fl"
  using flagLetter_not_slash by (auto simp: list_all_iff)

lemma specDelimited_words:
  "specDelimited q \<longleftrightarrow>
     startsWith q ''/'' \<and> (\<exists>fl. list_all flagLetter fl \<and> endsWith q (CHR ''/'' # fl))"
proof
  assume s: "specDelimited q"
  then have "CHR ''/'' \<in> set q" by (auto simp: specDelimited_def startsWith_slash)
  then have "endsWith q (CHR ''/'' # afterLastSlash q)"
    using endsWith_slash_flags[OF afterLastSlash_no_slash, of q q] by simp
  then show "startsWith q ''/'' \<and> (\<exists>fl. list_all flagLetter fl \<and> endsWith q (CHR ''/'' # fl))"
    using s unfolding specDelimited_def by blast
next
  assume r: "startsWith q ''/'' \<and> (\<exists>fl. list_all flagLetter fl \<and> endsWith q (CHR ''/'' # fl))"
  then obtain fl where fl: "list_all flagLetter fl" "endsWith q (CHR ''/'' # fl)" by blast
  have "CHR ''/'' \<notin> set fl" using fl(1) by (rule flags_no_slash)
  then have "afterLastSlash q = fl" using endsWith_slash_flags[of fl q] fl(2) by simp
  then show "specDelimited q" using r fl(1) by (simp add: specDelimited_def)
qed






subsection \<open>Pieces of a path\<close>

lemma splitSlash_nonempty: "splitSlash p \<noteq> []"
  by (induction p) (auto split: list.splits)


lemma splitSlash_append_slash:
  "splitSlash (a @ CHR ''/'' # b) = splitSlash a @ splitSlash b"
proof (induction a)
  case Nil
  show ?case by simp
next
  case (Cons c cs)
  obtain x xs where x: "splitSlash cs = x # xs"
    using splitSlash_nonempty[of cs] by (cases "splitSlash cs") auto
  show ?case using Cons x by simp
qed

lemma splitSlash_single: "CHR ''/'' \<notin> set s \<Longrightarrow> splitSlash s = [s]"
  by (induction s) auto

lemma afterLastSlash_id:
  assumes "CHR ''/'' \<notin> set s"
  shows "afterLastSlash s = s"
proof -
  have "takeWhile (\<lambda>x. x \<noteq> CHR ''/'') (rev s) = rev s"
    using assms by (subst takeWhile_eq_all_conv) auto
  then show ?thesis unfolding afterLastSlash_def by (simp only: rev_rev_ident)
qed

text \<open>
  The last piece of a path is the text after its last slash, and appending text without
  a slash extends that piece only.
\<close>

lemma splitSlash_decomp:
  "\<exists>xs pre. splitSlash p = xs @ [afterLastSlash p] \<and>
            p = pre @ afterLastSlash p \<and> (pre = [] \<or> last pre = CHR ''/'') \<and>
            (\<forall>t. CHR ''/'' \<notin> set t \<longrightarrow>
                 splitSlash (p @ t) = xs @ [afterLastSlash p @ t] \<and>
                 afterLastSlash (p @ t) = afterLastSlash p @ t)"
proof (cases "CHR ''/'' \<in> set p")
  case False
  then have "splitSlash p = [] @ [afterLastSlash p]" "p = [] @ afterLastSlash p"
    by (simp_all add: splitSlash_single afterLastSlash_id)
  moreover have "\<forall>t. CHR ''/'' \<notin> set t \<longrightarrow>
                 splitSlash (p @ t) = [] @ [afterLastSlash p @ t] \<and>
                 afterLastSlash (p @ t) = afterLastSlash p @ t"
    using False by (simp add: splitSlash_single afterLastSlash_id)
  ultimately show ?thesis by blast
next
  case True
  define a where "a = take (length p - length (afterLastSlash p) - 1) p"
  define s where "s = afterLastSlash p"
  have p: "p = a @ CHR ''/'' # s" using split_at_last_slash[OF True] by (simp add: a_def s_def)
  have ns: "CHR ''/'' \<notin> set s" by (simp add: s_def afterLastSlash_no_slash)
  have 1: "splitSlash p = splitSlash a @ [afterLastSlash p]"
    using p ns s_def splitSlash_append_slash[of a s] by (simp add: splitSlash_single)
  have 2: "p = (a @ ''/'') @ afterLastSlash p" using p s_def by simp
  have 3: "splitSlash (p @ t) = splitSlash a @ [afterLastSlash p @ t] \<and>
           afterLastSlash (p @ t) = afterLastSlash p @ t" if t: "CHR ''/'' \<notin> set t" for t
  proof -
    have nst: "CHR ''/'' \<notin> set (s @ t)" using ns t by simp
    have pt: "p @ t = a @ CHR ''/'' # (s @ t)" using p by simp
    have "splitSlash (p @ t) = splitSlash a @ [s @ t]"
      unfolding pt splitSlash_append_slash using nst by (simp add: splitSlash_single)
    moreover have "afterLastSlash (p @ t) = s @ t"
      unfolding pt using afterLastSlash_append[OF nst] by simp
    ultimately show ?thesis by (simp add: s_def)
  qed
  have "last (a @ ''/'') = CHR ''/''" by simp
  then show ?thesis using 1 2 3 by blast
qed

subsection \<open>The shape of a normalised path\<close>




lemma joinWith_snoc:
  "xs \<noteq> [] \<Longrightarrow> joinWith sep (xs @ [x]) = joinWith sep xs @ sep @ x"
  by (induction sep xs rule: joinWith.induct) auto




subsection \<open>Extensions\<close>


lemma stripTrailingSlashes_id: "x \<noteq> [] \<Longrightarrow> last x \<noteq> CHR ''/'' \<Longrightarrow> stripTrailingSlashes x = x"
  by (cases x rule: rev_cases) (auto simp: stripTrailingSlashes_def)







subsection \<open>The operations issued by the handlers\<close>
















subsection \<open>Appending the suffix\<close>

lemma last_splitSlash: "last (splitSlash p) = afterLastSlash p"
  using splitSlash_decomp[of p] by auto

lemma afterLastSlash_after_slash: "afterLastSlash (a @ CHR ''/'' # b) = afterLastSlash b"
proof -
  have "last (splitSlash (a @ CHR ''/'' # b)) = last (splitSlash b)"
    by (simp add: splitSlash_append_slash splitSlash_nonempty)
  then show ?thesis by (simp only: last_splitSlash)
qed

lemma normalizeStep_push:
  "seg \<noteq> [] \<Longrightarrow> seg \<noteq> ''.'' \<Longrightarrow> seg \<noteq> ''..'' \<Longrightarrow> normalizeStep b res seg = seg # res"
  by (simp add: normalizeStep_def)

lemma last_not_slash: "s \<noteq> [] \<Longrightarrow> CHR ''/'' \<notin> set s \<Longrightarrow> last s \<noteq> CHR ''/''"
  by (metis last_in_set)

lemma lastComponent_of_piece:
  assumes "s \<noteq> []" "CHR ''/'' \<notin> set s" "y = [] \<or> last y = CHR ''/''"
  shows "lastComponent (y @ s) = s"
proof -
  have "stripTrailingSlashes (y @ s) = y @ s"
    using assms(1) last_not_slash[OF assms(1,2)] by (intro stripTrailingSlashes_id) auto
  then have lc: "lastComponent (y @ s) = afterLastSlash (y @ s)"
    by (simp add: lastComponent_def afterLastSlash_def)
  show ?thesis
  proof (cases "y = []")
    case True
    then show ?thesis using lc assms(2) by (simp add: afterLastSlash_id)
  next
    case False
    then obtain y' where "y = y' @ ''/''" using assms(3) by (metis append_butlast_last_id)
    then show ?thesis using lc afterLastSlash_append[OF assms(2), of y'] by simp
  qed
qed

lemma extname_lastComponent: "lastComponent x = lastComponent y \<Longrightarrow> extname x = extname y"
  by (simp add: extname_def)

lemma extname_of_md_component:
  assumes "lastComponent x = s @ ''.md''"
  shows "extname x = (if s = [] then [] else ''.md'')"
  using assms by (simp add: extname_def Let_def)

text \<open>
  Normalising a path whose last piece is an ordinary name, and the same path with
  \<open>.md\<close> appended.
\<close>

lemma normalize_append_md:
  assumes s: "afterLastSlash q \<notin> {[], ''.'', ''..''}"
  shows "normalize (q @ ''.md'') = normalize q @ ''.md'' \<and>
         lastComponent (normalize q) = afterLastSlash q \<and>
         lastComponent (normalize q @ ''.md'') = afterLastSlash q @ ''.md''"
proof -
  define s where "s = afterLastSlash q"
  have sne: "s \<noteq> []" "s \<noteq> ''.''" "s \<noteq> ''..''" using assms by (auto simp: s_def)
  have sns: "CHR ''/'' \<notin> set s" by (simp add: s_def afterLastSlash_no_slash)
  obtain xs pre where xs: "splitSlash q = xs @ [s]" and q: "q = pre @ s"
    and ext: "\<forall>t. CHR ''/'' \<notin> set t \<longrightarrow>
                 splitSlash (q @ t) = xs @ [s @ t] \<and> afterLastSlash (q @ t) = s @ t"
    using splitSlash_decomp[of q] unfolding s_def by blast
  have "CHR ''/'' \<notin> set ''.md''" by simp
  then have xs': "splitSlash (q @ ''.md'') = xs @ [s @ ''.md'']" using ext by blast
  have qne: "q \<noteq> []" using q sne by simp
  have "last q = last s" using q sne(1) by simp
  then have lastq: "last q \<noteq> CHR ''/''" using last_not_slash[OF sne(1) sns] by simp
  define b where "b = (hd q \<noteq> CHR ''/'')"
  define stk where "stk = foldl (normalizeStep b) [] xs"
  have smd: "s @ ''.md'' \<noteq> []" "s @ ''.md'' \<noteq> ''.''" "s @ ''.md'' \<noteq> ''..''"
    using sne by (auto simp: append_eq_Cons_conv)
  have f1: "foldl (normalizeStep b) [] (splitSlash q) = s # stk"
    using xs sne by (simp add: stk_def normalizeStep_push)
  have f2: "foldl (normalizeStep b) [] (splitSlash (q @ ''.md'')) = (s @ ''.md'') # stk"
    using xs' smd by (simp add: stk_def normalizeStep_push)
  define x where "x = (if stk = [] then [] else joinWith ''/'' (rev stk) @ ''/'')"
  have n1: "normalizeString q b = x @ s"
    using f1 by (simp add: normalizeString_def x_def joinWith_snoc)
  have n2: "normalizeString (q @ ''.md'') b = x @ s @ ''.md''"
    using f2 by (simp add: normalizeString_def x_def joinWith_snoc)
  have xl: "x = [] \<or> last x = CHR ''/''" by (simp add: x_def)
  define y where "y = (if hd q = CHR ''/'' then CHR ''/'' # x else x)"
  have yl: "y = [] \<or> last y = CHR ''/''" using xl by (auto simp: y_def)
  have hq: "hd (q @ ''.md'') = hd q" using qne by simp
  have N1: "normalize q = y @ s"
    using qne lastq n1 sne(1) by (simp add: normalize_def Let_def b_def y_def)
  have N2: "normalize (q @ ''.md'') = y @ s @ ''.md''"
    using qne n2 sne(1) hq by (simp add: normalize_def Let_def b_def y_def)
  have L1: "lastComponent (normalize q) = s"
    unfolding N1 using sne(1) sns yl by (rule lastComponent_of_piece)
  have "lastComponent (y @ (s @ ''.md'')) = s @ ''.md''"
    using smd(1) sns yl by (intro lastComponent_of_piece) auto
  then have L2: "lastComponent (normalize q @ ''.md'') = s @ ''.md''" using N1 by simp
  show ?thesis using N1 N2 L1 L2 by (simp add: s_def)
qed

lemma startsWith_append: "startsWith a r \<Longrightarrow> startsWith (a @ b) r"
proof -
  assume h: "startsWith a r"
  then have "length r \<le> length a" unfolding startsWith_def by (metis length_take min.cobounded2 min.commute)
  then show ?thesis using h by (simp add: startsWith_def)
qed

lemma duplicate_only_for_dot_md:
  assumes "extname full \<noteq> ''.md''" "endsWith full ''.md''"
  shows "lastComponent full = ''.md''"
proof -
  obtain x where x: "full = x @ ''.md''" using assms(2) unfolding endsWith_iff by blast
  have "stripTrailingSlashes full = full"
    using x by (intro stripTrailingSlashes_id) auto
  then have "lastComponent full = afterLastSlash full"
    by (simp add: lastComponent_def afterLastSlash_def)
  moreover have "afterLastSlash (x @ ''.md'') = afterLastSlash x @ ''.md''"
    using splitSlash_decomp[of x] by auto
  ultimately have lc: "lastComponent full = afterLastSlash x @ ''.md''" using x by simp
  then have "afterLastSlash x = []"
    using assms(1) extname_of_md_component[OF lc] by (auto split: if_splits)
  then show ?thesis using lc by simp
qed

text \<open>
  C7, as stated, fails: \<open>notes/\<close> has no extension, yet resolving it and resolving
  \<open>notes/.md\<close> give different paths, and the second result carries the suffix twice.
\<close>

theorem validatePath_idempotence_counterexample:
  "extname ''notes/'' = [] \<and>
   validatePath ''/vault'' ''notes/'' = Inr ''/vault/notes/.md'' \<and>
   validatePath ''/vault'' (''notes/'' @ ''.md'') = Inr ''/vault/notes/.md.md'' \<and>
   validatePath ''/vault'' ''notes/'' \<noteq> validatePath ''/vault'' (''notes/'' @ ''.md'')"
  by code_simp

text \<open>
  C7, amended. \<open>validatePath\<close> returns the normalised path unchanged when
  \<open>path.extname\<close> of it is exactly \<open>.md\<close> and otherwise appends \<open>.md\<close> without
  stripping anything (so \<open>a.txt\<close> resolves to \<open>a.txt.md\<close>); the suffix is appended to a
  path that already ends with \<open>.md\<close> only when its last component is exactly \<open>.md\<close>.
  For every path \<open>p\<close> whose extension is not \<open>.md\<close> and whose text after the last slash is
  neither empty nor \<open>.\<close> nor \<open>..\<close>, if resolving \<open>p\<close> succeeds then resolving
  \<open>p + ".md"\<close> succeeds with the same path.
\<close>

theorem validatePath_suffix_rule:
  "validatePath root p = Inr r \<Longrightarrow>
     (let full = (if isAbsolute p then normalize p else join [root, p])
      in (extname full = ''.md'' \<longrightarrow> r = full) \<and>
         (extname full \<noteq> ''.md'' \<longrightarrow>
            r = full @ ''.md'' \<and> (endsWith full ''.md'' \<longrightarrow> lastComponent full = ''.md''))) \<and>
     (extname p \<noteq> ''.md'' \<and> afterLastSlash p \<notin> {[], ''.'', ''..''} \<longrightarrow>
        validatePath root (p @ ''.md'') = Inr r)"
proof -
  assume v: "validatePath root p = Inr r"
  define full where "full = (if isAbsolute p then normalize p else join [root, p])"
  have sw: "startsWith full root"
    and r: "r = (if extname full = ''.md'' then full else full @ ''.md'')"
    using v by (auto simp: validatePath_def Let_def full_def split: if_splits)
  have A: "extname full = ''.md'' \<longrightarrow> r = full" using r by simp
  have B: "extname full \<noteq> ''.md'' \<longrightarrow>
            r = full @ ''.md'' \<and> (endsWith full ''.md'' \<longrightarrow> lastComponent full = ''.md'')"
    using r duplicate_only_for_dot_md[of full] by simp
  have C: "validatePath root (p @ ''.md'') = Inr r"
    if e: "extname p \<noteq> ''.md''" and s: "afterLastSlash p \<notin> {[], ''.'', ''..''}"
  proof -
    have pne: "p \<noteq> []" using s by (auto simp: afterLastSlash_def)
    define q where "q = (if isAbsolute p \<or> root = [] then p else root @ ''/'' @ p)"
    have fq: "full = normalize q"
      using pne by (auto simp: full_def q_def join_def Let_def)
    have abs: "isAbsolute (p @ ''.md'') = isAbsolute p"
      using pne by (cases p) (simp_all add: isAbsolute_def)
    have fq': "(if isAbsolute (p @ ''.md'') then normalize (p @ ''.md'') else join [root, p @ ''.md''])
                 = normalize (q @ ''.md'')"
      unfolding abs using pne by (auto simp: q_def join_def Let_def)
    have aq: "afterLastSlash q = afterLastSlash p"
      using afterLastSlash_after_slash[of root p] by (simp add: q_def)
    have n: "normalize (q @ ''.md'') = full @ ''.md''"
      and l1: "lastComponent full = afterLastSlash p"
      and l2: "lastComponent (full @ ''.md'') = afterLastSlash p @ ''.md''"
      using normalize_append_md[of q] s aq fq by simp_all
    obtain pre where pre: "p = pre @ afterLastSlash p" "pre = [] \<or> last pre = CHR ''/''"
      using splitSlash_decomp[of p] by blast
    have "lastComponent (pre @ afterLastSlash p) = afterLastSlash p"
      using s afterLastSlash_no_slash[of p] pre(2) by (intro lastComponent_of_piece) auto
    then have "lastComponent p = lastComponent full" using pre(1) l1 by simp
    then have "extname full = extname p" by (rule extname_lastComponent[symmetric])
    then have rr: "r = full @ ''.md''" using e r by simp
    have e2: "extname (full @ ''.md'') = ''.md''"
      using extname_of_md_component[OF l2] s by auto
    have sw2: "startsWith (full @ ''.md'') root" using sw by (rule startsWith_append)
    show ?thesis
      unfolding validatePath_def Let_def fq' n using sw2 e2 rr by simp
  qed
  show ?thesis unfolding Let_def full_def[symmetric] using A B C by blast
qed

theorem validatePath_suffix_rule_witness:
  "validatePath ''/vault'' ''notes/a'' = Inr ''/vault/notes/a.md'' \<and>
   extname ''notes/a'' \<noteq> ''.md'' \<and> afterLastSlash ''notes/a'' \<notin> {[], ''.'', ''..''} \<and>
   validatePath ''/vault'' (''notes/a'' @ ''.md'') = Inr ''/vault/notes/a.md'' \<and>
   validatePath ''/vault'' ''a.txt'' = Inr ''/vault/a.txt.md'' \<and>
   extname (join [''/vault'', ''a.txt'']) \<noteq> ''.md'' \<and>
   validatePath ''/vault'' ''.md'' = Inr ''/vault/.md.md'' \<and>
   extname (join [''/vault'', ''.md'']) \<noteq> ''.md'' \<and> endsWith (join [''/vault'', ''.md'']) ''.md'' \<and>
   lastComponent (join [''/vault'', ''.md'']) = ''.md'' \<and>
   validatePath ''/vault'' ''notes/a.md'' = Inr ''/vault/notes/a.md'' \<and>
   extname (join [''/vault'', ''notes/a.md'']) = ''.md'' \<and>
   join [''/vault'', ''notes/a.md''] = ''/vault/notes/a.md''"
proof -
  have v4: "validatePath ''/vault'' ''notes/a.md'' = Inr ''/vault/notes/a.md''" by code_simp
  have h4: "extname (join [''/vault'', ''notes/a.md'']) = ''.md''" "\<not> isAbsolute ''notes/a.md''"
    by code_simp+
  have c4: "join [''/vault'', ''notes/a.md''] = ''/vault/notes/a.md''"
    using validatePath_suffix_rule[OF v4] h4 by (simp add: Let_def)
  have v1: "validatePath ''/vault'' ''notes/a'' = Inr ''/vault/notes/a.md''" by code_simp
  have h1: "extname ''notes/a'' \<noteq> ''.md''" "afterLastSlash ''notes/a'' \<notin> {[], ''.'', ''..''}"
    by code_simp+
  have v2: "validatePath ''/vault'' ''a.txt'' = Inr ''/vault/a.txt.md''" by code_simp
  have h2: "extname (join [''/vault'', ''a.txt'']) \<noteq> ''.md''" by code_simp
  have v3: "validatePath ''/vault'' ''.md'' = Inr ''/vault/.md.md''" by code_simp
  have h3: "extname (join [''/vault'', ''.md'']) \<noteq> ''.md''" "endsWith (join [''/vault'', ''.md'']) ''.md''"
           "\<not> isAbsolute ''.md''"
    by code_simp+
  have c1: "validatePath ''/vault'' (''notes/a'' @ ''.md'') = Inr ''/vault/notes/a.md''"
    using validatePath_suffix_rule[OF v1] h1 by blast
  have c3: "lastComponent (join [''/vault'', ''.md'']) = ''.md''"
    using validatePath_suffix_rule[OF v3] h3 by (simp add: Let_def)
  show ?thesis using v1 h1 c1 v2 h2 v3 h3 c3 v4 h4 c4 by blast
qed

subsection \<open>Canonical absolute paths\<close>












subsection \<open>The search walk\<close>









end
